theory Spec2Isabelle
  imports
    Complex_Main
    "HOL-Library.Char_ord"
    "HOL-Library.List_Lexorder"
    "HOL-Library.Product_Lexorder"
    "HOL-Library.Multiset"
begin

section \<open>Sales analysis: the data model\<close>

text \<open>
  The program keeps one pandas DataFrame (\<open>self.df\<close>) and works on it through pandas
  calls.  The embedding below gives each pandas call that the source makes a definition
  of its own (\<open>drop_duplicates\<close>, \<open>fillna\<close>, \<open>median\<close>, \<open>mode\<close>, \<open>groupby\<close>, \<open>sum\<close>,
  \<open>mean\<close>, \<open>nunique\<close>, \<open>count\<close>, \<open>sort_values\<close>, \<open>pct_change\<close>, \<open>head\<close>), and each
  function of the repository a definition that composes them in the order of the source.

  Conventions of the model.
  \<^item> A cell is missing (\<open>NA\<close>: pandas NaN, None or NaT) or holds a number, a text, a
    timestamp or a monthly period.  Numbers in cells are finite and arithmetic on them
    is exact (rationals): rounding of binary floating point and signed zeros are not
    modelled.  The special values that a floating-point division produces
    (infinities, NaN) are kept, in the type \<open>fval\<close> of computed results.
  \<^item> A table is a list of columns (name and dtype) and a list of rows; a row is the
    list of its cells in column order.  Column names are pairwise different, as
    \<open>read_csv\<close> guarantees.
  \<^item> \<open>self.df\<close> is \<open>None\<close> when loading failed; the state of the analyzer is therefore a
    \<open>table option\<close>.
  \<^item> A function that mutates \<open>self.df\<close> returns the new state beside its result; a
    raised exception is a value of type \<open>error\<close>.
  \<^item> \<open>df[col].fillna(v, inplace=True)\<close> writes through to the table, as it does in
    the pandas versions without copy-on-write (before 3.0).
  \<^item> Printing is modelled for the messages of the cleaning functions only; rendering
    the charts and writing the spreadsheet file are outside the model.
\<close>

datatype dtype = Numeric | Object | Datetime | Period

datatype cell =
    NA
  | Num rat
  | Str string
  | Ts int nat nat nat   \<comment> \<open>year, month, day, second of the day\<close>
  | Per int nat          \<comment> \<open>year, month\<close>

record table =
  columns :: "(string \<times> dtype) list"
  rows :: "cell list list"

datatype key = Column string | Columns "string list" | Position nat

datatype error = KeyError key | TypeError | AttributeError | ValueError

datatype message =
    NoDataLoaded
  | RemovedDuplicates nat
  | MissingValuesFound "(string \<times> nat) list"
  | DataCleanedSuccessfully

text \<open>
  Values of one column are compared by pandas when it sorts group keys and modes.  The
  order on cells is the order of the values inside one constructor (numbers by value,
  texts lexicographically by character code, timestamps and periods chronologically);
  a column holds cells of one constructor only, so the order between constructors is
  never the program's.
\<close>

fun cell_key :: "cell \<Rightarrow> nat \<times> rat \<times> string \<times> int \<times> nat \<times> nat \<times> nat" where
  "cell_key NA = (0, 0, [], 0, 0, 0, 0)"
| "cell_key (Num q) = (1, q, [], 0, 0, 0, 0)"
| "cell_key (Str s) = (2, 0, s, 0, 0, 0, 0)"
| "cell_key (Ts y m d s) = (3, 0, [], y, m, d, s)"
| "cell_key (Per y m) = (4, 0, [], y, m, 0, 0)"

instantiation cell :: linorder
begin

definition less_eq_cell :: "cell \<Rightarrow> cell \<Rightarrow> bool" where
  "less_eq_cell c d \<longleftrightarrow> cell_key c \<le> cell_key d"

definition less_cell :: "cell \<Rightarrow> cell \<Rightarrow> bool" where
  "less_cell c d \<longleftrightarrow> cell_key c < cell_key d"

instance
proof
  fix x y z :: cell
  show "(x < y) = (x \<le> y \<and> \<not> y \<le> x)"
    unfolding less_eq_cell_def less_cell_def by (rule less_le_not_le)
  show "x \<le> x"
    unfolding less_eq_cell_def by (rule order_refl)
  show "x \<le> y \<Longrightarrow> y \<le> z \<Longrightarrow> x \<le> z"
    unfolding less_eq_cell_def by (rule order_trans)
  show "x \<le> y \<Longrightarrow> y \<le> x \<Longrightarrow> x = y"
  proof -
    assume "x \<le> y" and "y \<le> x"
    then have "cell_key x = cell_key y"
      unfolding less_eq_cell_def by (rule order_antisym)
    then show "x = y"
      by (cases x; cases y) simp_all
  qed
  show "x \<le> y \<or> y \<le> x"
    unfolding less_eq_cell_def by (rule linear)
qed

end

subsection \<open>Column access\<close>

fun index_of :: "string \<Rightarrow> (string \<times> dtype) list \<Rightarrow> nat option" where
  "index_of n [] = None"
| "index_of n (c # cs) =
     (if fst c = n then Some 0
      else (case index_of n cs of None \<Rightarrow> None | Some j \<Rightarrow> Some (Suc j)))"

definition has_column :: "string \<Rightarrow> table \<Rightarrow> bool" where
  "has_column n t = (index_of n (columns t) \<noteq> None)"

definition column_values :: "nat \<Rightarrow> cell list list \<Rightarrow> cell list" where
  "column_values j rs = map (\<lambda>r. r ! j) rs"

definition select_dtypes :: "dtype \<Rightarrow> table \<Rightarrow> nat list" where
  "select_dtypes d t = filter (\<lambda>j. snd (columns t ! j) = d) [0..<length (columns t)]"

definition well_formed :: "table \<Rightarrow> bool" where
  "well_formed t = list_all (\<lambda>r. length r = length (columns t)) (rows t)"

section \<open>Cleaning\<close>

subsection \<open>\<open>drop_duplicates\<close>\<close>

text \<open>
  pandas marks a row as duplicated when an equal row was met before (\<open>keep='first'\<close>),
  walking the rows in order with the rows met so far; missing cells are equal to each
  other.  \<open>drop_duplicates\<close> keeps the rows that are not marked.
\<close>

fun drop_seen :: "'a list \<Rightarrow> 'a list \<Rightarrow> 'a list" where
  "drop_seen seen [] = []"
| "drop_seen seen (r # rs) =
     (if r \<in> set seen then drop_seen seen rs else r # drop_seen (r # seen) rs)"

definition drop_duplicates :: "'a list \<Rightarrow> 'a list" where
  "drop_duplicates rs = drop_seen [] rs"

subsection \<open>\<open>isnull\<close>, \<open>fillna\<close>, \<open>median\<close>, \<open>mode\<close>\<close>

definition isnull_sum :: "nat \<Rightarrow> cell list list \<Rightarrow> nat" where
  "isnull_sum j rs = length (filter (\<lambda>r. r ! j = NA) rs)"

definition fillna :: "nat \<Rightarrow> cell \<Rightarrow> cell list list \<Rightarrow> cell list list" where
  "fillna j v rs = map (\<lambda>r. if r ! j = NA then r[j := v] else r) rs"

fun present_nums :: "cell list \<Rightarrow> rat list" where
  "present_nums [] = []"
| "present_nums (Num q # cs) = q # present_nums cs"
| "present_nums (c # cs) = present_nums cs"

text \<open>
  \<open>median\<close> skips missing values; with no value present it is NaN, and \<open>fillna\<close> with NaN
  changes nothing.
\<close>

definition median :: "cell list \<Rightarrow> cell" where
  "median cs =
     (let xs = sort (present_nums cs); n = length xs
      in if n = 0 then NA
         else if odd n then Num (xs ! (n div 2))
         else Num ((xs ! (n div 2 - 1) + xs ! (n div 2)) / 2))"

text \<open>
  \<open>mode\<close> returns the most frequent present values, sorted ascending; the source takes
  element \<open>[0]\<close> of it, which raises \<open>KeyError\<close> when no value is present.
\<close>

definition mode :: "cell list \<Rightarrow> cell list" where
  "mode cs =
     (let present = filter (\<lambda>c. c \<noteq> NA) cs;
          top = foldr max (map (count_list present) present) 0
      in sort (remdups (filter (\<lambda>c. count_list present c = top) present)))"

subsection \<open>\<open>SalesAnalyzer.clean_data\<close>\<close>

record cleaned =
  df :: "table option"
  printed :: "message list"
  raised :: "error option"

fun fill_numeric :: "nat list \<Rightarrow> cell list list \<Rightarrow> cell list list" where
  "fill_numeric [] rs = rs"
| "fill_numeric (j # js) rs =
     fill_numeric js
       (if isnull_sum j rs > 0 then fillna j (median (column_values j rs)) rs else rs)"

fun fill_object :: "nat list \<Rightarrow> cell list list \<Rightarrow> cell list list \<times> error option" where
  "fill_object [] rs = (rs, None)"
| "fill_object (j # js) rs =
     (if isnull_sum j rs > 0 then
        (case mode (column_values j rs) of
           [] \<Rightarrow> (rs, Some (KeyError (Position 0)))
         | m # _ \<Rightarrow> fill_object js (fillna j m rs))
      else fill_object js rs)"

definition missing_values :: "table \<Rightarrow> cell list list \<Rightarrow> (string \<times> nat) list" where
  "missing_values t rs =
     map (\<lambda>j. (fst (columns t ! j), isnull_sum j rs)) [0..<length (columns t)]"

definition clean_data :: "table option \<Rightarrow> cleaned" where
  "clean_data state =
     (case state of
        None \<Rightarrow> \<lparr>df = None, printed = [NoDataLoaded], raised = None\<rparr>
      | Some t \<Rightarrow>
          let initial_rows = length (rows t);
              rs = drop_duplicates (rows t);
              removed = initial_rows - length rs;
              missing = missing_values t rs
          in if sum_list (map snd missing) > 0 then
               let rs1 = fill_numeric (select_dtypes Numeric t) rs;
                   (rs2, err) = fill_object (select_dtypes Object t) rs1
               in \<lparr>df = Some (t\<lparr>rows := rs2\<rparr>),
                   printed = [RemovedDuplicates removed,
                              MissingValuesFound (filter (\<lambda>m. snd m > 0) missing)],
                   raised = err\<rparr>
             else \<lparr>df = Some (t\<lparr>rows := rs\<rparr>),
                   printed = [RemovedDuplicates removed],
                   raised = None\<rparr>)"

subsection \<open>\<open>data_cleaner.clean_data\<close>\<close>

text \<open>
  The module-level function has no guards: every numeric column is filled with its
  median and every text column with \<open>mode()[0]\<close>, whether or not it has missing cells.
\<close>

fun fill_numeric_all :: "nat list \<Rightarrow> cell list list \<Rightarrow> cell list list" where
  "fill_numeric_all [] rs = rs"
| "fill_numeric_all (j # js) rs =
     fill_numeric_all js (fillna j (median (column_values j rs)) rs)"

fun fill_object_all :: "nat list \<Rightarrow> cell list list \<Rightarrow> cell list list \<times> error option" where
  "fill_object_all [] rs = (rs, None)"
| "fill_object_all (j # js) rs =
     (case mode (column_values j rs) of
        [] \<Rightarrow> (rs, Some (KeyError (Position 0)))
      | m # _ \<Rightarrow> fill_object_all js (fillna j m rs))"

definition data_cleaner_clean_data :: "table option \<Rightarrow> cleaned" where
  "data_cleaner_clean_data state =
     (case state of
        None \<Rightarrow> \<lparr>df = None, printed = [], raised = None\<rparr>
      | Some t \<Rightarrow>
          let rs = drop_duplicates (rows t);
              rs1 = fill_numeric_all (select_dtypes Numeric t) rs;
              (rs2, err) = fill_object_all (select_dtypes Object t) rs1
          in \<lparr>df = Some (t\<lparr>rows := rs2\<rparr>),
              printed = (if err = None then [DataCleanedSuccessfully] else []),
              raised = err\<rparr>)"

section \<open>Aggregation\<close>

text \<open>
  Results of float computations: a finite value, or one of the special values that
  division by zero produces.  pandas reads NaN as "missing".
\<close>

datatype fval = Fin rat | PInf | NInf | NaN

definition fdiv :: "rat \<Rightarrow> rat \<Rightarrow> fval" where
  "fdiv a b =
     (if b = 0 then (if a = 0 then NaN else if a > 0 then PInf else NInf)
      else Fin (a / b))"

fun fsub :: "fval \<Rightarrow> rat \<Rightarrow> fval" where
  "fsub (Fin x) c = Fin (x - c)"
| "fsub v c = v"

fun fmul :: "fval \<Rightarrow> rat \<Rightarrow> fval" where
  "fmul (Fin x) c = Fin (x * c)"
| "fmul NaN c = NaN"
| "fmul PInf c = (if c > 0 then PInf else if c < 0 then NInf else NaN)"
| "fmul NInf c = (if c > 0 then NInf else if c < 0 then PInf else NaN)"

definition mean :: "rat list \<Rightarrow> fval" where
  "mean xs = (if xs = [] then NaN else Fin (sum_list xs / of_nat (length xs)))"

definition nunique :: "cell list \<Rightarrow> nat" where
  "nunique cs = length (remdups (filter (\<lambda>c. c \<noteq> NA) cs))"

definition count_present :: "cell list \<Rightarrow> nat" where
  "count_present cs = length (filter (\<lambda>c. c \<noteq> NA) cs)"

definition dtype_of :: "nat \<Rightarrow> table \<Rightarrow> dtype" where
  "dtype_of j t = snd (columns t ! j)"

text \<open>
  \<open>sum\<close> and \<open>mean\<close> skip missing values.  They are modelled on numeric columns, and on
  text columns without any present value (what \<open>read_csv\<close> gives for a file of zero
  rows), where the sum is 0 and the mean NaN.  On a timestamp or period column pandas
  raises \<open>TypeError\<close>; so does \<open>mean\<close> on a text column with values.  (\<open>sum\<close> alone
  concatenates texts; the model reports \<open>TypeError\<close> there as well, so nothing below
  is stated about sums of texts.)
\<close>

definition summable :: "dtype \<Rightarrow> cell list \<Rightarrow> bool" where
  "summable d cs = (d = Numeric \<or> (d = Object \<and> list_all (\<lambda>c. c = NA) cs))"

definition column_sum :: "nat \<Rightarrow> cell list list \<Rightarrow> rat" where
  "column_sum j rs = sum_list (present_nums (column_values j rs))"

subsection \<open>\<open>calculate_basic_stats\<close>\<close>

record stats =
  total_sales :: rat
  average_order :: fval
  total_orders :: nat
  unique_customers :: nat
  unique_products :: nat
  date_range :: "((int \<times> nat \<times> nat) \<times> (int \<times> nat \<times> nat)) option"

fun ymd :: "cell \<Rightarrow> int \<times> nat \<times> nat" where
  "ymd (Ts y m d s) = (y, m, d)"
| "ymd (Per y m) = (y, m, 1)"
| "ymd c = (0, 0, 0)"

text \<open>
  \<open>min().strftime(...)\<close>: the minimum of a timestamp column without present values is
  NaT, whose \<open>strftime\<close> raises \<open>ValueError\<close>; the minimum of a numeric or text column
  has no \<open>strftime\<close> (\<open>AttributeError\<close>).
\<close>

definition min_max_date ::
  "dtype \<Rightarrow> cell list \<Rightarrow> error + ((int \<times> nat \<times> nat) \<times> (int \<times> nat \<times> nat))" where
  "min_max_date d cs =
     (if d = Datetime \<or> d = Period then
        (case filter (\<lambda>c. c \<noteq> NA) cs of
           [] \<Rightarrow> Inl ValueError
         | p # ps \<Rightarrow> Inr (ymd (foldr min ps p), ymd (foldr max ps p)))
      else Inl AttributeError)"

definition calculate_basic_stats :: "table option \<Rightarrow> error + stats option" where
  "calculate_basic_stats state =
     (case state of
        None \<Rightarrow> Inr None
      | Some t \<Rightarrow>
         (case index_of ''total_amount'' (columns t) of
            None \<Rightarrow> Inl (KeyError (Column ''total_amount''))
          | Some ja \<Rightarrow>
             if \<not> summable (dtype_of ja t) (column_values ja (rows t)) then Inl TypeError
             else
              (case index_of ''customer_id'' (columns t) of
                 None \<Rightarrow> Inl (KeyError (Column ''customer_id''))
               | Some jc \<Rightarrow>
                  (case index_of ''product_id'' (columns t) of
                     None \<Rightarrow> Inl (KeyError (Column ''product_id''))
                   | Some jp \<Rightarrow>
                      let s = \<lparr>total_sales = column_sum ja (rows t),
                               average_order = mean (present_nums (column_values ja (rows t))),
                               total_orders = length (rows t),
                               unique_customers = nunique (column_values jc (rows t)),
                               unique_products = nunique (column_values jp (rows t)),
                               date_range = None\<rparr>
                      in (case index_of ''order_date'' (columns t) of
                            None \<Rightarrow> Inr (Some s)
                          | Some jd \<Rightarrow>
                             (case min_max_date (dtype_of jd t) (column_values jd (rows t)) of
                                Inl e \<Rightarrow> Inl e
                              | Inr r \<Rightarrow> Inr (Some (s\<lparr>date_range := Some r\<rparr>))))))))"

subsection \<open>\<open>groupby\<close>, \<open>agg\<close>, \<open>sort_values\<close>\<close>

text \<open>
  \<open>groupby\<close> drops the rows whose key is missing and orders the groups by key,
  ascending.  \<open>agg\<close> with a dict raises \<open>KeyError\<close> naming, in sorted order, the columns
  of the dict that the table does not have.
\<close>

definition group_keys :: "cell list \<Rightarrow> cell list" where
  "group_keys cs = sort (remdups (filter (\<lambda>c. c \<noteq> NA) cs))"

definition group_rows :: "nat \<Rightarrow> cell \<Rightarrow> cell list list \<Rightarrow> cell list list" where
  "group_rows j k rs = filter (\<lambda>r. r ! j = k) rs"

definition absent_columns :: "string list \<Rightarrow> table \<Rightarrow> string list" where
  "absent_columns ns t = sort (filter (\<lambda>n. \<not> has_column n t) ns)"

text \<open>
  \<open>sort_values(..., ascending=False)\<close> reverses the frame, sorts ascending and reverses
  the result.  The ascending sort is numpy's default, which promises nothing about the
  order of equal keys; the model uses insertion sort, which keeps them in input order.
  What is proved below for all tables holds for every order of equal keys.
\<close>

definition sort_values_descending :: "('a \<Rightarrow> rat) \<Rightarrow> 'a list \<Rightarrow> 'a list" where
  "sort_values_descending f xs = rev (sort_key f (rev xs))"

subsection \<open>\<open>analyze_sales_by_category\<close>\<close>

record group_row =
  group_key :: cell
  total_amount :: rat
  quantity :: rat
  order_count :: nat

text \<open>
  \<open>groupby(key).agg({'total_amount': 'sum', 'quantity': 'sum', 'order_id': 'count'})\<close>:
  one row per group, in key order.
\<close>

definition aggregate ::
  "nat \<Rightarrow> nat \<Rightarrow> nat \<Rightarrow> nat \<Rightarrow> cell list list \<Rightarrow> group_row list" where
  "aggregate jk ja jq jo rs =
     map (\<lambda>k. let g = group_rows jk k rs
               in \<lparr>group_key = k,
                   total_amount = column_sum ja g,
                   quantity = column_sum jq g,
                   order_count = count_present (column_values jo g)\<rparr>)
         (group_keys (column_values jk rs))"

definition analyze_sales_by_category :: "table option \<Rightarrow> error + group_row list" where
  "analyze_sales_by_category state =
     (case state of
        None \<Rightarrow> Inl AttributeError
      | Some t \<Rightarrow>
         (case index_of ''category'' (columns t) of
            None \<Rightarrow> Inr []
          | Some jk \<Rightarrow>
             (case (index_of ''total_amount'' (columns t),
                    index_of ''quantity'' (columns t),
                    index_of ''order_id'' (columns t)) of
                (Some ja, Some jq, Some jo) \<Rightarrow>
                  if \<not> summable (dtype_of ja t) (column_values ja (rows t))
                     \<or> \<not> summable (dtype_of jq t) (column_values jq (rows t))
                  then Inl TypeError
                  else
                    let category_sales = aggregate jk ja jq jo (rows t)
                    in Inr (sort_values_descending total_amount category_sales)
              | _ \<Rightarrow>
                  Inl (KeyError (Columns
                    (absent_columns [''total_amount'', ''quantity'', ''order_id''] t))))))"

subsection \<open>\<open>analyze_monthly_trends\<close>\<close>

fun to_period :: "cell \<Rightarrow> cell" where
  "to_period (Ts y m d s) = Per y m"
| "to_period c = NA"

text \<open>
  \<open>self.df['month_year'] = ...\<close> replaces the column of that name when the table has
  one and appends a new last column otherwise.
\<close>

definition set_column :: "string \<Rightarrow> dtype \<Rightarrow> cell list \<Rightarrow> table \<Rightarrow> table" where
  "set_column n d vs t =
     (case index_of n (columns t) of
        Some j \<Rightarrow> t\<lparr>columns := (columns t)[j := (n, d)],
                    rows := map (\<lambda>(r, v). r[j := v]) (zip (rows t) vs)\<rparr>
      | None \<Rightarrow> t\<lparr>columns := columns t @ [(n, d)],
                  rows := map (\<lambda>(r, v). r @ [v]) (zip (rows t) vs)\<rparr>)"

text \<open>
  \<open>pct_change\<close> is \<open>data / data.shift(1) - 1\<close>: the first element has no predecessor
  and is NaN.
\<close>

definition shift :: "rat list \<Rightarrow> rat option list" where
  "shift xs = (if xs = [] then [] else None # map Some (butlast xs))"

definition pct_change :: "rat list \<Rightarrow> fval list" where
  "pct_change xs =
     map (\<lambda>(cur, prev). case prev of None \<Rightarrow> NaN | Some p \<Rightarrow> fsub (fdiv cur p) 1)
         (zip xs (shift xs))"

record monthly_row = group_row +
  unique_customers_in_month :: nat
  growth_rate :: fval

text \<open>
  The monthly aggregation adds the number of distinct customers of the group; the
  growth rate is filled in afterwards.
\<close>

definition aggregate_monthly ::
  "nat \<Rightarrow> nat \<Rightarrow> nat \<Rightarrow> nat \<Rightarrow> nat \<Rightarrow> cell list list \<Rightarrow> monthly_row list" where
  "aggregate_monthly jm ja jq jc jo rs =
     map (\<lambda>k. let g = group_rows jm k rs
               in \<lparr>group_key = k,
                   total_amount = column_sum ja g,
                   quantity = column_sum jq g,
                   order_count = count_present (column_values jo g),
                   unique_customers_in_month = nunique (column_values jc g),
                   growth_rate = NaN\<rparr>)
         (group_keys (column_values jm rs))"

definition with_growth_rate :: "monthly_row list \<Rightarrow> monthly_row list" where
  "with_growth_rate monthly_sales =
     map (\<lambda>(m, g). m\<lparr>growth_rate := g\<rparr>)
         (zip monthly_sales
              (map (\<lambda>v. fmul v 100) (pct_change (map total_amount monthly_sales))))"

definition analyze_monthly_trends ::
  "table option \<Rightarrow> table option \<times> (error + monthly_row list)" where
  "analyze_monthly_trends state =
     (case state of
        None \<Rightarrow> (None, Inl AttributeError)
      | Some t \<Rightarrow>
         (case index_of ''order_date'' (columns t) of
            None \<Rightarrow> (Some t, Inr [])
          | Some jd \<Rightarrow>
             if dtype_of jd t \<noteq> Datetime then (Some t, Inl AttributeError)
             else
               let t' = set_column ''month_year'' Period
                          (map to_period (column_values jd (rows t))) t
               in (case (index_of ''month_year'' (columns t'),
                         index_of ''total_amount'' (columns t'),
                         index_of ''quantity'' (columns t'),
                         index_of ''customer_id'' (columns t'),
                         index_of ''order_id'' (columns t')) of
                     (Some jm, Some ja, Some jq, Some jc, Some jo) \<Rightarrow>
                       if \<not> summable (dtype_of ja t') (column_values ja (rows t'))
                          \<or> \<not> summable (dtype_of jq t') (column_values jq (rows t'))
                       then (Some t', Inl TypeError)
                       else
                         let monthly_sales = aggregate_monthly jm ja jq jc jo (rows t')
                         in (Some t', Inr (with_growth_rate monthly_sales))
                   | _ \<Rightarrow>
                       (Some t',
                        Inl (KeyError (Columns
                          (absent_columns
                             [''total_amount'', ''quantity'', ''customer_id'', ''order_id'']
                             t')))))))"

subsection \<open>\<open>generate_report\<close>\<close>

record report =
  summary :: "stats option"
  monthly_trends :: "monthly_row list option"
  category_analysis :: "group_row list option"
  sample_data :: "table option"

definition head :: "nat \<Rightarrow> table \<Rightarrow> table" where
  "head n t = t\<lparr>rows := take n (rows t)\<rparr>"

text \<open>
  The sheets are written in the order of the source; an exception on the way is caught
  and the function returns \<open>False\<close> (here: the error), the state keeping what was
  mutated before.  Writing the file itself is outside the model.
\<close>

definition generate_report :: "table option \<Rightarrow> table option \<times> (error + report)" where
  "generate_report state =
     (case calculate_basic_stats state of
        Inl e \<Rightarrow> (state, Inl e)
      | Inr s \<Rightarrow>
         (case analyze_monthly_trends state of
            (state', Inl e) \<Rightarrow> (state', Inl e)
          | (state', Inr monthly_data) \<Rightarrow>
             (case analyze_sales_by_category state' of
                Inl e \<Rightarrow> (state', Inl e)
              | Inr category_data \<Rightarrow>
                 (state',
                  Inr \<lparr>summary = s,
                       monthly_trends =
                         (if monthly_data = [] then None else Some monthly_data),
                       category_analysis =
                         (if category_data = [] then None else Some category_data),
                       sample_data = map_option (head 1000) state'\<rparr>))))"

section \<open>Predicates and example tables used in the statements\<close>

text \<open>
  \<open>keeps_present rs rs'\<close>: the two row lists have the same shape and every cell that
  holds a value in \<open>rs\<close> holds the same value in \<open>rs'\<close>.
\<close>

definition keeps_present :: "cell list list \<Rightarrow> cell list list \<Rightarrow> bool" where
  "keeps_present rs rs' =
     list_all2 (\<lambda>r r'. length r' = length r \<and> (\<forall>k. r ! k \<noteq> NA \<longrightarrow> r' ! k = r ! k)) rs rs'"

text \<open>
  Columns of a list of rows: without a missing cell, entirely missing, holding at least
  one number.  A table is \<open>settled\<close> when every numeric column is without missing
  cells or without numbers, and every text column is without missing cells.
\<close>

definition no_missing :: "nat \<Rightarrow> cell list list \<Rightarrow> bool" where
  "no_missing j rs = list_all (\<lambda>r. r ! j \<noteq> NA) rs"


definition has_number :: "nat \<Rightarrow> cell list list \<Rightarrow> bool" where
  "has_number j rs = (present_nums (column_values j rs) \<noteq> [])"

definition settled :: "table \<Rightarrow> bool" where
  "settled t =
     (list_all (\<lambda>k. no_missing k (rows t) \<or> \<not> has_number k (rows t))
               (select_dtypes Numeric t)
      \<and> list_all (\<lambda>k. no_missing k (rows t)) (select_dtypes Object t))"

definition orders_columns :: "(string \<times> dtype) list" where
  "orders_columns =
     [(''order_id'', Numeric), (''customer_id'', Numeric), (''product_id'', Numeric),
      (''category'', Object), (''quantity'', Numeric), (''total_amount'', Numeric),
      (''order_date'', Datetime)]"



text \<open>Three orders with a missing quantity and a missing category.\<close>

definition orders_with_gaps :: table where
  "orders_with_gaps =
     \<lparr>columns = orders_columns,
      rows = [[Num 1, Num 7, Num 3, Str ''toys'', NA, Num 10, Ts 2024 1 5 0],
              [Num 2, Num 8, Num 4, NA, Num 2, Num 25, Ts 2024 1 9 0],
              [Num 3, Num 8, Num 5, Str ''toys'', Num 4, Num 40, Ts 2024 2 2 0]]\<rparr>"

text \<open>Two orders of equal amount in two categories, the later category first in the alphabet.\<close>

definition tied_categories :: table where
  "tied_categories =
     \<lparr>columns = orders_columns,
      rows = [[Num 1, Num 7, Num 3, Str ''toys'', Num 1, Num 10, Ts 2024 1 5 0],
              [Num 2, Num 8, Num 4, Str ''books'', Num 2, Num 10, Ts 2024 1 9 0]]\<rparr>"


text \<open>
  What \<open>load_data\<close> gives for a file with a header line and no rows: text columns,
  \<open>order_date\<close> converted to timestamps; and the same without an \<open>order_date\<close> column.
\<close>

definition header_only :: table where
  "header_only =
     \<lparr>columns = [(''order_id'', Object), (''customer_id'', Object), (''product_id'', Object),
                 (''category'', Object), (''quantity'', Object), (''total_amount'', Object),
                 (''order_date'', Datetime)],
      rows = []\<rparr>"

definition header_only_undated :: table where
  "header_only_undated =
     \<lparr>columns = [(''order_id'', Object), (''customer_id'', Object), (''product_id'', Object),
                 (''category'', Object), (''quantity'', Object), (''total_amount'', Object)],
      rows = []\<rparr>"

text \<open>Orders without a \<open>customer_id\<close> column.\<close>

definition anonymous_orders :: table where
  "anonymous_orders =
     \<lparr>columns = [(''order_id'', Numeric), (''product_id'', Numeric), (''total_amount'', Numeric)],
      rows = [[Num 1, Num 3, Num 10], [Num 2, Num 4, Num 25]]\<rparr>"

text \<open>The table of \<open>tied_categories\<close> with the month of each order as last column.\<close>

definition tied_categories_with_month :: table where
  "tied_categories_with_month =
     \<lparr>columns = orders_columns @ [(''month_year'', Period)],
      rows = [[Num 1, Num 7, Num 3, Str ''toys'', Num 1, Num 10, Ts 2024 1 5 0, Per 2024 1],
              [Num 2, Num 8, Num 4, Str ''books'', Num 2, Num 10, Ts 2024 1 9 0, Per 2024 1]]\<rparr>"



definition order_recorded_twice :: table where
  "order_recorded_twice =
     \<lparr>columns = orders_columns,
      rows = [[Num 1, Num 7, Num 3, Str ''toys'', NA, Num 10, Ts 2024 1 5 0],
              [Num 1, Num 7, Num 3, Str ''toys'', Num 2, Num 10, Ts 2024 1 5 0],
              [Num 2, Num 8, Num 4, Str ''books'', Num 2, Num 25, Ts 2024 1 9 0]]\<rparr>"

definition orders_with_gaps_cleaned :: table where
  "orders_with_gaps_cleaned =
     \<lparr>columns = orders_columns,
      rows = [[Num 1, Num 7, Num 3, Str ''toys'', Num 3, Num 10, Ts 2024 1 5 0],
              [Num 2, Num 8, Num 4, Str ''toys'', Num 2, Num 25, Ts 2024 1 9 0],
              [Num 3, Num 8, Num 5, Str ''toys'', Num 4, Num 40, Ts 2024 2 2 0]]\<rparr>"

section \<open>Properties of cleaning\<close>

subsection \<open>Deduplication\<close>

lemma set_drop_seen: "set (drop_seen seen xs) = set xs - set seen"
  by (induction xs arbitrary: seen) auto

lemma distinct_drop_seen: "distinct (drop_seen seen xs)"
  by (induction xs arbitrary: seen) (auto simp: set_drop_seen)



lemma set_drop_duplicates: "set (drop_duplicates xs) = set xs"
  by (simp add: drop_duplicates_def set_drop_seen)

lemma distinct_drop_duplicates: "distinct (drop_duplicates xs)"
  by (simp add: drop_duplicates_def distinct_drop_seen)



subsection \<open>Imputation writes to missing cells only\<close>

lemma keeps_present_refl: "keeps_present rs rs"
  by (simp add: keeps_present_def list_all2_same)

lemma keeps_present_trans:
  "keeps_present rs rs' \<Longrightarrow> keeps_present rs' rs'' \<Longrightarrow> keeps_present rs rs''"
proof -
  assume a: "keeps_present rs rs'" and b: "keeps_present rs' rs''"
  show ?thesis
    unfolding keeps_present_def
    by (rule list_all2_trans [OF _ a [unfolded keeps_present_def] b [unfolded keeps_present_def]])
       auto
qed

lemma keeps_present_fillna: "keeps_present rs (fillna j v rs)"
  by (auto simp: keeps_present_def fillna_def list_all2_map2 list_all2_same)
     (metis nth_list_update_neq)

lemma keeps_present_fill_numeric: "keeps_present rs (fill_numeric js rs)"
proof (induction js arbitrary: rs)
  case Nil
  show ?case by (simp add: keeps_present_refl)
next
  case (Cons j js)
  show ?case
    using Cons.IH keeps_present_fillna keeps_present_trans by (simp; blast)
qed

lemma keeps_present_fill_object: "keeps_present rs (fst (fill_object js rs))"
proof (induction js arbitrary: rs)
  case Nil
  show ?case by (simp add: keeps_present_refl)
next
  case (Cons j js)
  have step: "\<And>m. keeps_present rs (fst (fill_object js (fillna j m rs)))"
    by (rule keeps_present_trans [OF keeps_present_fillna Cons.IH])
  show ?case
    by (simp add: step Cons.IH keeps_present_refl split: list.splits)
qed

lemma keeps_present_fill_numeric_all: "keeps_present rs (fill_numeric_all js rs)"
proof (induction js arbitrary: rs)
  case Nil
  show ?case by (simp add: keeps_present_refl)
next
  case (Cons j js)
  show ?case
    using Cons.IH keeps_present_fillna keeps_present_trans by (simp; blast)
qed

lemma keeps_present_fill_object_all: "keeps_present rs (fst (fill_object_all js rs))"
proof (induction js arbitrary: rs)
  case Nil
  show ?case by (simp add: keeps_present_refl)
next
  case (Cons j js)
  show ?case
  proof (cases "mode (column_values j rs)")
    case Nil
    then show ?thesis by (simp add: keeps_present_refl)
  next
    case (Cons m ms)
    then show ?thesis
      using keeps_present_trans [OF keeps_present_fillna Cons.IH] by simp
  qed
qed

lemma clean_data_rows:
  "\<exists>rs. df (clean_data (Some t)) = Some (t\<lparr>rows := rs\<rparr>)
        \<and> keeps_present (drop_duplicates (rows t)) rs"
  using keeps_present_trans [OF keeps_present_fill_numeric keeps_present_fill_object]
  by (auto simp: clean_data_def Let_def keeps_present_refl split: prod.splits)
     (metis fst_conv)

lemma data_cleaner_clean_data_rows:
  "\<exists>rs. df (data_cleaner_clean_data (Some t)) = Some (t\<lparr>rows := rs\<rparr>)
        \<and> keeps_present (drop_duplicates (rows t)) rs"
  using keeps_present_trans [OF keeps_present_fill_numeric_all keeps_present_fill_object_all]
  by (auto simp: data_cleaner_clean_data_def Let_def split: prod.splits)
     (metis fst_conv)


lemma keeps_present_length: "keeps_present rs rs' \<Longrightarrow> length rs' = length rs"
  by (simp add: keeps_present_def list_all2_lengthD)

lemma keeps_present_nth:
  "keeps_present rs rs' \<Longrightarrow> i < length rs \<Longrightarrow> rs ! i ! k \<noteq> NA \<Longrightarrow> rs' ! i ! k = rs ! i ! k"
  by (simp add: keeps_present_def list_all2_conv_all_nth)




text \<open>
  Claim C10.  Cleaning never alters a present value: the rows after cleaning are the
  rows kept by deduplication, position by position, and every cell that held a value
  there holds the same value afterwards.  This holds for \<open>SalesAnalyzer.clean_data\<close>
  and for \<open>data_cleaner.clean_data\<close>, also when the text imputation raises.
\<close>

theorem clean_data_keeps_present_values:
  "(\<exists>rs. df (clean_data (Some t)) = Some (t\<lparr>rows := rs\<rparr>)
         \<and> length rs = length (drop_duplicates (rows t))
         \<and> (\<forall>i<length rs. \<forall>k<length (drop_duplicates (rows t) ! i).
               drop_duplicates (rows t) ! i ! k \<noteq> NA
               \<longrightarrow> rs ! i ! k = drop_duplicates (rows t) ! i ! k))
   \<and> (\<exists>rs. df (data_cleaner_clean_data (Some t)) = Some (t\<lparr>rows := rs\<rparr>)
         \<and> length rs = length (drop_duplicates (rows t))
         \<and> (\<forall>i<length rs. \<forall>k<length (drop_duplicates (rows t) ! i).
               drop_duplicates (rows t) ! i ! k \<noteq> NA
               \<longrightarrow> rs ! i ! k = drop_duplicates (rows t) ! i ! k))"
proof
  obtain rs where rs: "df (clean_data (Some t)) = Some (t\<lparr>rows := rs\<rparr>)"
    "keeps_present (drop_duplicates (rows t)) rs"
    using clean_data_rows by blast
  show "\<exists>rs. df (clean_data (Some t)) = Some (t\<lparr>rows := rs\<rparr>)
         \<and> length rs = length (drop_duplicates (rows t))
         \<and> (\<forall>i<length rs. \<forall>k<length (drop_duplicates (rows t) ! i).
               drop_duplicates (rows t) ! i ! k \<noteq> NA
               \<longrightarrow> rs ! i ! k = drop_duplicates (rows t) ! i ! k)"
    using rs keeps_present_length [OF rs(2)] keeps_present_nth [OF rs(2)]
    by (intro exI [of _ rs]) simp
next
  obtain rs where rs: "df (data_cleaner_clean_data (Some t)) = Some (t\<lparr>rows := rs\<rparr>)"
    "keeps_present (drop_duplicates (rows t)) rs"
    using data_cleaner_clean_data_rows by blast
  show "\<exists>rs. df (data_cleaner_clean_data (Some t)) = Some (t\<lparr>rows := rs\<rparr>)
         \<and> length rs = length (drop_duplicates (rows t))
         \<and> (\<forall>i<length rs. \<forall>k<length (drop_duplicates (rows t) ! i).
               drop_duplicates (rows t) ! i ! k \<noteq> NA
               \<longrightarrow> rs ! i ! k = drop_duplicates (rows t) ! i ! k)"
    using rs keeps_present_length [OF rs(2)] keeps_present_nth [OF rs(2)]
    by (intro exI [of _ rs]) simp
qed

lemma orders_with_gaps_distinct: "drop_duplicates (rows orders_with_gaps) = rows orders_with_gaps"
  by (simp add: drop_duplicates_def orders_with_gaps_def)

theorem clean_data_keeps_present_values_witness:
  "(\<exists>rs. df (clean_data (Some orders_with_gaps)) = Some (orders_with_gaps\<lparr>rows := rs\<rparr>)
         \<and> length rs = 3
         \<and> rows orders_with_gaps ! 1 ! 5 \<noteq> NA
         \<and> rs ! 1 ! 5 = Num 25)
   \<and> (\<exists>rs. df (data_cleaner_clean_data (Some orders_with_gaps))
             = Some (orders_with_gaps\<lparr>rows := rs\<rparr>)
         \<and> length rs = 3
         \<and> rows orders_with_gaps ! 1 ! 5 \<noteq> NA
         \<and> rs ! 1 ! 5 = Num 25)"
proof -
  have v: "length (rows orders_with_gaps) = 3 \<and> length (rows orders_with_gaps ! 1) = 7
           \<and> rows orders_with_gaps ! 1 ! 5 = Num 25"
    by (simp add: orders_with_gaps_def orders_columns_def)
  show ?thesis
    using clean_data_keeps_present_values [of orders_with_gaps] v
    unfolding orders_with_gaps_distinct
    by (auto simp del: One_nat_def)
qed

section \<open>Properties of the aggregations\<close>

subsection \<open>Category rollup\<close>

































subsection \<open>Monthly trend\<close>


















subsection \<open>The table after the monthly trend\<close>

lemma zip_map_same: "zip xs (map f xs) = map (\<lambda>x. (x, f x)) xs"
  by (induction xs) simp_all

lemma set_column_new:
  assumes "index_of n (columns t) = None"
  shows "set_column n d (map f (column_values j (rows t))) t
           = \<lparr>columns = columns t @ [(n, d)], rows = map (\<lambda>r. r @ [f (r ! j)]) (rows t)\<rparr>"
  using assms by (simp add: set_column_def column_values_def zip_map_same comp_def)

lemma set_column_old:
  assumes "index_of n (columns t) = Some jm"
  shows "set_column n d (map f (column_values j (rows t))) t
           = \<lparr>columns = (columns t)[jm := (n, d)],
              rows = map (\<lambda>r. r[jm := f (r ! j)]) (rows t)\<rparr>"
  using assms by (simp add: set_column_def column_values_def zip_map_same comp_def)

lemma analyze_monthly_trends_state:
  assumes "index_of ''order_date'' (columns t) = Some jd" and "dtype_of jd t = Datetime"
  shows "fst (analyze_monthly_trends (Some t))
           = Some (set_column ''month_year'' Period
                     (map to_period (column_values jd (rows t))) t)"
  using assms
  by (simp add: analyze_monthly_trends_def Let_def split: option.split)

lemma analyze_monthly_trends_undated:
  assumes "index_of ''order_date'' (columns t) = None"
  shows "analyze_monthly_trends (Some t) = (Some t, Inr [])"
  using assms by (simp add: analyze_monthly_trends_def)

lemma generate_report_sample:
  assumes "generate_report (Some t) = (st, Inr r)"
  shows "st = fst (analyze_monthly_trends (Some t)) \<and> sample_data r = map_option (head 1000) st"
  using assms
  by (auto simp: generate_report_def split: sum.splits prod.splits)

text \<open>
  Claim C1, as the code has it.  Without an \<open>order_date\<close> column
  \<open>analyze_monthly_trends\<close> leaves the table unchanged.  With one (of timestamp type)
  it stores the month of every row in the column \<open>month_year\<close> of the table: a new last
  column when the table has none of that name, the column of that name otherwise; the
  other cells, the other columns and the order of the rows stay as they are.
  \<open>generate_report\<close> writes as Sample Data the first 1000 rows of the table in that
  state, the column \<open>month_year\<close> included.
\<close>

theorem monthly_trends_adds_month_year:
  "(index_of ''order_date'' (columns t) = None
      \<longrightarrow> analyze_monthly_trends (Some t) = (Some t, Inr []))
   \<and> (index_of ''order_date'' (columns t) = Some jd \<and> dtype_of jd t = Datetime
        \<and> index_of ''month_year'' (columns t) = None
      \<longrightarrow> fst (analyze_monthly_trends (Some t))
            = Some \<lparr>columns = columns t @ [(''month_year'', Period)],
                    rows = map (\<lambda>r. r @ [to_period (r ! jd)]) (rows t)\<rparr>)
   \<and> (index_of ''order_date'' (columns t) = Some jd \<and> dtype_of jd t = Datetime
        \<and> index_of ''month_year'' (columns t) = Some jm
      \<longrightarrow> fst (analyze_monthly_trends (Some t))
            = Some \<lparr>columns = (columns t)[jm := (''month_year'', Period)],
                    rows = map (\<lambda>r. r[jm := to_period (r ! jd)]) (rows t)\<rparr>)
   \<and> (generate_report (Some t) = (st, Inr r)
      \<longrightarrow> st = fst (analyze_monthly_trends (Some t))
          \<and> sample_data r = map_option (head 1000) st)"
proof (intro conjI impI)
  assume "index_of ''order_date'' (columns t) = None"
  then show "analyze_monthly_trends (Some t) = (Some t, Inr [])"
    by (rule analyze_monthly_trends_undated)
next
  assume a: "index_of ''order_date'' (columns t) = Some jd \<and> dtype_of jd t = Datetime
        \<and> index_of ''month_year'' (columns t) = None"
  then have "fst (analyze_monthly_trends (Some t))
           = Some (set_column ''month_year'' Period
                     (map to_period (column_values jd (rows t))) t)"
    by (simp add: analyze_monthly_trends_state)
  then show "fst (analyze_monthly_trends (Some t))
            = Some \<lparr>columns = columns t @ [(''month_year'', Period)],
                    rows = map (\<lambda>r. r @ [to_period (r ! jd)]) (rows t)\<rparr>"
    using a by (simp only: set_column_new)
next
  assume a: "index_of ''order_date'' (columns t) = Some jd \<and> dtype_of jd t = Datetime
        \<and> index_of ''month_year'' (columns t) = Some jm"
  then have "fst (analyze_monthly_trends (Some t))
           = Some (set_column ''month_year'' Period
                     (map to_period (column_values jd (rows t))) t)"
    by (simp add: analyze_monthly_trends_state)
  then show "fst (analyze_monthly_trends (Some t))
            = Some \<lparr>columns = (columns t)[jm := (''month_year'', Period)],
                    rows = map (\<lambda>r. r[jm := to_period (r ! jd)]) (rows t)\<rparr>"
    using a by (simp only: set_column_old)
next
  assume "generate_report (Some t) = (st, Inr r)"
  then show "st = fst (analyze_monthly_trends (Some t))"
    and "sample_data r = map_option (head 1000) st"
    using generate_report_sample by blast+
qed

text \<open>
  Claim C1 as stated fails: after \<open>analyze_monthly_trends\<close> the table of
  \<open>tied_categories\<close> has the extra column \<open>month_year\<close>, and the Sample Data sheet
  that \<open>generate_report\<close> writes contains it.
\<close>

theorem month_year_is_persisted_and_reported:
  "fst (analyze_monthly_trends (Some tied_categories)) = Some tied_categories_with_month
   \<and> tied_categories_with_month \<noteq> tied_categories
   \<and> (case snd (generate_report (Some tied_categories)) of
         Inl e \<Rightarrow> None
       | Inr r \<Rightarrow> sample_data r) = Some tied_categories_with_month
   \<and> map fst (columns tied_categories_with_month)
       = [''order_id'', ''customer_id'', ''product_id'', ''category'', ''quantity'',
          ''total_amount'', ''order_date'', ''month_year'']"
  by code_simp

lemma anonymous_orders_undated: "index_of ''order_date'' (columns anonymous_orders) = None"
  by code_simp

lemma tied_categories_dated:
  "index_of ''order_date'' (columns tied_categories) = Some 6
   \<and> dtype_of 6 tied_categories = Datetime
   \<and> index_of ''month_year'' (columns tied_categories) = None"
  by code_simp

lemma tied_categories_bucketed:
  "\<lparr>columns = columns tied_categories @ [(''month_year'', Period)],
    rows = map (\<lambda>r. r @ [to_period (r ! 6)]) (rows tied_categories)\<rparr>
     = tied_categories_with_month"
  by code_simp

lemma tied_categories_with_month_dated:
  "index_of ''order_date'' (columns tied_categories_with_month) = Some 6
   \<and> dtype_of 6 tied_categories_with_month = Datetime
   \<and> index_of ''month_year'' (columns tied_categories_with_month) = Some 7"
  by code_simp

lemma tied_categories_rebucketed:
  "\<lparr>columns = (columns tied_categories_with_month)[7 := (''month_year'', Period)],
    rows = map (\<lambda>r. r[7 := to_period (r ! 6)]) (rows tied_categories_with_month)\<rparr>
     = tied_categories_with_month"
  by code_simp

lemma tied_categories_report:
  "(case snd (generate_report (Some tied_categories)) of Inl e \<Rightarrow> False | Inr r \<Rightarrow> True)
   \<and> map_option (head 1000) (Some tied_categories_with_month)
       = Some tied_categories_with_month"
  by code_simp

theorem monthly_trends_adds_month_year_witness:
  "index_of ''order_date'' (columns anonymous_orders) = None
   \<and> analyze_monthly_trends (Some anonymous_orders) = (Some anonymous_orders, Inr [])
   \<and> index_of ''order_date'' (columns tied_categories) = Some 6
   \<and> dtype_of 6 tied_categories = Datetime
   \<and> index_of ''month_year'' (columns tied_categories) = None
   \<and> fst (analyze_monthly_trends (Some tied_categories)) = Some tied_categories_with_month
   \<and> index_of ''month_year'' (columns tied_categories_with_month) = Some 7
   \<and> fst (analyze_monthly_trends (Some tied_categories_with_month))
       = Some tied_categories_with_month
   \<and> (\<exists>r. generate_report (Some tied_categories) = (Some tied_categories_with_month, Inr r)
          \<and> sample_data r = Some tied_categories_with_month)"
proof -
  have a: "analyze_monthly_trends (Some anonymous_orders) = (Some anonymous_orders, Inr [])"
    using monthly_trends_adds_month_year [of anonymous_orders] anonymous_orders_undated
    by blast
  have b: "fst (analyze_monthly_trends (Some tied_categories)) = Some tied_categories_with_month"
    using monthly_trends_adds_month_year [of tied_categories 6] tied_categories_dated
    unfolding tied_categories_bucketed by blast
  have c: "fst (analyze_monthly_trends (Some tied_categories_with_month))
             = Some tied_categories_with_month"
    using monthly_trends_adds_month_year [of tied_categories_with_month 6 7]
      tied_categories_with_month_dated
    unfolding tied_categories_rebucketed by blast
  obtain r where r: "snd (generate_report (Some tied_categories)) = Inr r"
    using tied_categories_report by (auto split: sum.splits)
  then have "generate_report (Some tied_categories)
               = (fst (generate_report (Some tied_categories)), Inr r)"
    by (simp add: prod_eq_iff)
  from monthly_trends_adds_month_year [of tied_categories _ _ _ r] this
  have "fst (generate_report (Some tied_categories))
          = fst (analyze_monthly_trends (Some tied_categories))
        \<and> sample_data r = map_option (head 1000) (fst (generate_report (Some tied_categories)))"
    by blast
  then have d: "generate_report (Some tied_categories) = (Some tied_categories_with_month, Inr r)
        \<and> sample_data r = Some tied_categories_with_month"
    using r b tied_categories_report by (simp add: prod_eq_iff)
  show ?thesis
    using a b c d anonymous_orders_undated tied_categories_dated
      tied_categories_with_month_dated
    by blast
qed

subsection \<open>Tables without rows\<close>

lemma aggregate_Nil: "aggregate jk ja jq jo [] = []"
  by (simp add: aggregate_def group_keys_def column_values_def)

lemma aggregate_monthly_Nil: "aggregate_monthly jm ja jq jc jo [] = []"
  by (simp add: aggregate_monthly_def group_keys_def column_values_def)

lemma with_growth_rate_Nil: "with_growth_rate [] = []"
  by (simp add: with_growth_rate_def)

lemma sort_values_descending_Nil: "sort_values_descending f [] = []"
  by (simp add: sort_values_descending_def)

lemma rows_set_column_Nil: "rows t = [] \<Longrightarrow> rows (set_column n d vs t) = []"
  by (simp add: set_column_def split: option.split)

lemma zero_rows_rollup:
  assumes "rows t = []" and "analyze_sales_by_category (Some t) = Inr category_sales"
  shows "category_sales = []"
  using assms
  by (auto simp: analyze_sales_by_category_def Let_def aggregate_Nil sort_values_descending_Nil
        split: option.splits if_splits)

lemma zero_rows_trend:
  assumes "rows t = []" and "analyze_monthly_trends (Some t) = (st, Inr monthly)"
  shows "monthly = []"
  using assms
  by (auto simp: analyze_monthly_trends_def Let_def aggregate_monthly_Nil with_growth_rate_Nil
        rows_set_column_Nil split: option.splits if_splits)

lemma zero_rows_stats:
  assumes "rows t = []"
    and "index_of ''total_amount'' (columns t) = Some ja"
    and "dtype_of ja t = Numeric \<or> dtype_of ja t = Object"
    and "has_column ''customer_id'' t" and "has_column ''product_id'' t"
    and "\<not> has_column ''order_date'' t"
  shows "calculate_basic_stats (Some t)
           = Inr (Some \<lparr>total_sales = 0, average_order = NaN, total_orders = 0,
                         unique_customers = 0, unique_products = 0, date_range = None\<rparr>)"
  using assms
  by (auto simp: calculate_basic_stats_def has_column_def summable_def column_values_def
        column_sum_def mean_def nunique_def Let_def)

text \<open>
  Claim C3, as the code has it.  For a table with zero rows that has the columns
  \<open>total_amount\<close> (numeric or text), \<open>customer_id\<close> and \<open>product_id\<close> and no
  \<open>order_date\<close>, \<open>calculate_basic_stats\<close> returns \<open>total_orders = 0\<close>,
  \<open>total_sales = 0\<close> and \<open>average_order\<close> NaN; the category rollup and the monthly trend
  of a table with zero rows are empty whenever they return.
\<close>

theorem zero_rows_statistics:
  assumes "rows t = []"
  shows "(index_of ''total_amount'' (columns t) = Some ja
            \<and> (dtype_of ja t = Numeric \<or> dtype_of ja t = Object)
            \<and> has_column ''customer_id'' t \<and> has_column ''product_id'' t
            \<and> \<not> has_column ''order_date'' t
          \<longrightarrow> calculate_basic_stats (Some t)
                = Inr (Some \<lparr>total_sales = 0, average_order = NaN, total_orders = 0,
                              unique_customers = 0, unique_products = 0,
                              date_range = None\<rparr>))
       \<and> (analyze_sales_by_category (Some t) = Inr category_sales \<longrightarrow> category_sales = [])
       \<and> (analyze_monthly_trends (Some t) = (st, Inr monthly) \<longrightarrow> monthly = [])"
  using zero_rows_stats [OF assms, of ja] zero_rows_rollup [OF assms, of category_sales]
    zero_rows_trend [OF assms, of st monthly]
  by blast

text \<open>
  Claim C3 as stated fails: for the table of a file without rows, \<open>calculate_basic_stats\<close>
  raises (\<open>strftime\<close> of the missing minimum date); without an \<open>order_date\<close> column it
  returns, with \<open>average_order\<close> NaN.
\<close>

theorem zero_rows_average_is_nan:
  "rows header_only = [] \<and> rows header_only_undated = []
   \<and> calculate_basic_stats (Some header_only) = Inl ValueError
   \<and> calculate_basic_stats (Some header_only_undated)
       = Inr (Some \<lparr>total_sales = 0, average_order = NaN, total_orders = 0,
                     unique_customers = 0, unique_products = 0, date_range = None\<rparr>)"
  by code_simp

lemma header_only_undated_columns:
  "rows header_only_undated = []
   \<and> index_of ''total_amount'' (columns header_only_undated) = Some 5
   \<and> dtype_of 5 header_only_undated = Object
   \<and> summable (dtype_of 5 header_only_undated) (column_values 5 (rows header_only_undated))
   \<and> has_column ''customer_id'' header_only_undated
   \<and> has_column ''product_id'' header_only_undated
   \<and> \<not> has_column ''order_date'' header_only_undated"
  by code_simp

lemma header_only_results:
  "rows header_only = []
   \<and> analyze_sales_by_category (Some header_only) = Inr []
   \<and> (case analyze_monthly_trends (Some header_only) of
         (st, Inr m) \<Rightarrow> True | (st, Inl e) \<Rightarrow> False)"
  by code_simp

theorem zero_rows_statistics_witness:
  "rows header_only_undated = []
   \<and> index_of ''total_amount'' (columns header_only_undated) = Some 5
   \<and> dtype_of 5 header_only_undated = Object
   \<and> has_column ''customer_id'' header_only_undated
   \<and> has_column ''product_id'' header_only_undated
   \<and> \<not> has_column ''order_date'' header_only_undated
   \<and> calculate_basic_stats (Some header_only_undated)
       = Inr (Some \<lparr>total_sales = 0, average_order = NaN, total_orders = 0,
                     unique_customers = 0, unique_products = 0, date_range = None\<rparr>)
   \<and> rows header_only = []
   \<and> analyze_sales_by_category (Some header_only) = Inr []
   \<and> snd (analyze_monthly_trends (Some header_only)) = Inr []"
proof -
  have r0: "rows header_only_undated = []" and r1: "rows header_only = []"
    using header_only_undated_columns header_only_results by simp_all
  have a: "calculate_basic_stats (Some header_only_undated)
       = Inr (Some \<lparr>total_sales = 0, average_order = NaN, total_orders = 0,
                     unique_customers = 0, unique_products = 0, date_range = None\<rparr>)"
    using zero_rows_statistics [OF r0, of 5] header_only_undated_columns by blast
  obtain st m where m: "analyze_monthly_trends (Some header_only) = (st, Inr m)"
    using header_only_results by (auto split: prod.splits sum.splits)
  have "m = []"
    using zero_rows_statistics [OF r1, of _ _ st m] m by blast
  then have b: "snd (analyze_monthly_trends (Some header_only)) = Inr []"
    using m by simp
  show ?thesis
    using a b header_only_undated_columns header_only_results by blast
qed

subsection \<open>Columns required by the basic statistics\<close>










section \<open>Cleaning twice, and columns that are entirely missing\<close>

subsection \<open>The numeric loop\<close>

lemma isnull_sum_0: "isnull_sum j rs = 0 \<longleftrightarrow> no_missing j rs"
  by (auto simp: isnull_sum_def no_missing_def list_all_iff filter_empty_conv)

lemma fillna_id: "no_missing j rs \<Longrightarrow> fillna j v rs = rs"
  by (simp add: fillna_def no_missing_def list_all_iff map_idI)

lemma fillna_NA: "fillna j NA rs = rs"
proof -
  have "\<And>r. (if r ! j = NA then r[j := NA] else r) = r"
    by (metis list_update_id)
  then show ?thesis
    by (simp add: fillna_def)
qed

lemma column_fillna_other: "k \<noteq> j \<Longrightarrow> column_values k (fillna j v rs) = column_values k rs"
  by (simp add: column_values_def fillna_def)

lemma no_missing_column: "no_missing k rs \<longleftrightarrow> NA \<notin> set (column_values k rs)"
  by (force simp: no_missing_def column_values_def list_all_iff intro: rev_image_eqI)

lemma no_missing_fillna: "no_missing k rs \<Longrightarrow> no_missing k (fillna j v rs)"
  by (cases "k = j") (simp_all add: fillna_id no_missing_column column_fillna_other)

lemma no_missing_fillna_same:
  assumes "v \<noteq> NA" and "\<forall>r\<in>set rs. j < length r"
  shows "no_missing j (fillna j v rs)"
  using assms by (auto simp: no_missing_def fillna_def list_all_iff)

lemma has_number_fillna_other: "k \<noteq> j \<Longrightarrow> has_number k (fillna j v rs) = has_number k rs"
  by (simp add: has_number_def column_fillna_other)

lemma sort_Nil_iff: "sort xs = [] \<longleftrightarrow> xs = []"
  by (metis length_sort length_0_conv)

lemma median_NA: "median cs = NA \<longleftrightarrow> present_nums cs = []"
  by (simp add: median_def Let_def sort_Nil_iff)

lemma row_lengths_fillna:
  "\<forall>r\<in>set rs. length r = n \<Longrightarrow> \<forall>r\<in>set (fillna j v rs). length r = n"
  by (auto simp: fillna_def)

text \<open>One step of the numeric loop.\<close>

lemma numeric_step_keeps:
  assumes "no_missing k rs \<or> \<not> has_number k rs"
  shows "no_missing k (fillna j (median (column_values j rs)) rs)
       \<or> \<not> has_number k (fillna j (median (column_values j rs)) rs)"
proof (cases "k = j")
  case False
  then show ?thesis
    using assms by (auto simp: has_number_fillna_other no_missing_fillna)
next
  case True
  show ?thesis
  proof (cases "no_missing k rs")
    case True
    then show ?thesis by (simp add: no_missing_fillna)
  next
    case False
    then have "median (column_values j rs) = NA"
      using assms \<open>k = j\<close> by (simp add: median_NA has_number_def)
    then show ?thesis
      using assms by (simp add: fillna_NA)
  qed
qed

lemma numeric_step_settles:
  assumes "\<forall>r\<in>set rs. j < length r"
  shows "no_missing j (fillna j (median (column_values j rs)) rs)
       \<or> \<not> has_number j (fillna j (median (column_values j rs)) rs)"
proof (cases "median (column_values j rs) = NA")
  case True
  then have "\<not> has_number j rs"
    by (simp add: median_NA has_number_def)
  then show ?thesis
    using True by (simp add: fillna_NA)
next
  case False
  then show ?thesis
    using no_missing_fillna_same [OF False assms] by simp
qed

lemma fill_numeric_step:
  "fill_numeric (j # js) rs = fill_numeric js (fillna j (median (column_values j rs)) rs)"
  by (simp add: isnull_sum_0 fillna_id)

lemma row_lengths_fill_numeric:
  "\<forall>r\<in>set rs. length r = n \<Longrightarrow> \<forall>r\<in>set (fill_numeric js rs). length r = n"
proof (induction js arbitrary: rs)
  case Nil
  then show ?case by simp
next
  case (Cons j js)
  show ?case
    unfolding fill_numeric_step
    by (rule Cons.IH) (rule row_lengths_fillna [OF Cons.prems])
qed

lemma fill_numeric_keeps:
  "no_missing k rs \<or> \<not> has_number k rs \<Longrightarrow>
     no_missing k (fill_numeric js rs) \<or> \<not> has_number k (fill_numeric js rs)"
proof (induction js arbitrary: rs)
  case Nil
  then show ?case by simp
next
  case (Cons j js)
  show ?case
    unfolding fill_numeric_step
    by (rule Cons.IH) (rule numeric_step_keeps [OF Cons.prems])
qed

lemma fill_numeric_settles:
  assumes "\<forall>r\<in>set rs. length r = n" and "\<forall>j\<in>set js. j < n" and "k \<in> set js"
  shows "no_missing k (fill_numeric js rs) \<or> \<not> has_number k (fill_numeric js rs)"
  using assms
proof (induction js arbitrary: rs)
  case Nil
  then show ?case by simp
next
  case (Cons j js)
  let ?rs = "fillna j (median (column_values j rs)) rs"
  have len: "\<forall>r\<in>set ?rs. length r = n"
    by (rule row_lengths_fillna [OF Cons.prems(1)])
  show ?case
  proof (cases "k = j")
    case True
    have "\<forall>r\<in>set rs. j < length r"
      using Cons.prems by simp
    then show ?thesis
      unfolding fill_numeric_step True
      by (intro fill_numeric_keeps numeric_step_settles)
  next
    case False
    then have "k \<in> set js"
      using Cons.prems by simp
    then show ?thesis
      unfolding fill_numeric_step
      using Cons.IH [OF len] Cons.prems(2) by simp
  qed
qed

subsection \<open>The text loop\<close>

lemma mode_not_NA: "m \<in> set (mode cs) \<Longrightarrow> m \<noteq> NA"
  by (auto simp: mode_def Let_def)

lemma foldr_max_attained:
  "xs \<noteq> [] \<Longrightarrow> foldr max (map f xs) (0::nat) \<in> f ` set xs"
proof (induction xs)
  case Nil
  then show ?case by simp
next
  case (Cons x xs)
  show ?case
  proof (cases "xs = []")
    case True
    then show ?thesis by simp
  next
    case False
    then have "foldr max (map f xs) 0 \<in> f ` set xs"
      by (rule Cons.IH)
    moreover have "max (f x) (foldr max (map f xs) 0) = f x
        \<or> max (f x) (foldr max (map f xs) 0) = foldr max (map f xs) 0"
      by (simp add: max_def)
    ultimately show ?thesis
      by (simp add: image_iff) metis
  qed
qed

lemma mode_Nil_iff: "mode cs = [] \<longleftrightarrow> (\<forall>c\<in>set cs. c = NA)"
proof
  assume m: "mode cs = []"
  show "\<forall>c\<in>set cs. c = NA"
  proof (rule ccontr)
    assume "\<not> (\<forall>c\<in>set cs. c = NA)"
    then have ne: "filter (\<lambda>c. c \<noteq> NA) cs \<noteq> []"
      by (auto simp: filter_empty_conv)
    let ?p = "filter (\<lambda>c. c \<noteq> NA) cs"
    define top where "top = foldr max (map (count_list ?p) ?p) 0"
    have "top \<in> count_list ?p ` set ?p"
      unfolding top_def by (rule foldr_max_attained [OF ne])
    then obtain c where "c \<in> set ?p" "count_list ?p c = top"
      by (elim imageE) simp
    then have "filter (\<lambda>c. count_list ?p c = top) ?p \<noteq> []"
      unfolding filter_empty_conv by blast
    then have "mode cs \<noteq> []"
      unfolding top_def by (simp add: mode_def Let_def sort_Nil_iff)
    then show False
      using m by simp
  qed
next
  assume "\<forall>c\<in>set cs. c = NA"
  then have "filter (\<lambda>c. c \<noteq> NA) cs = []"
    by (auto simp: filter_empty_conv)
  then show "mode cs = []"
    by (simp add: mode_def)
qed


lemma no_missing_fill_object:
  "no_missing k rs \<Longrightarrow> no_missing k (fst (fill_object js rs))"
proof (induction js arbitrary: rs)
  case Nil
  then show ?case by simp
next
  case (Cons j js)
  have "\<And>m. no_missing k (fst (fill_object js (fillna j m rs)))"
    by (rule Cons.IH) (rule no_missing_fillna [OF Cons.prems])
  then show ?case
    using Cons.IH [OF Cons.prems] Cons.prems by (simp split: list.splits)
qed

lemma has_number_fill_object:
  "k \<notin> set js \<Longrightarrow> has_number k (fst (fill_object js rs)) = has_number k rs"
proof (induction js arbitrary: rs)
  case Nil
  then show ?case by simp
next
  case (Cons j js)
  then have k: "k \<noteq> j" "k \<notin> set js"
    by auto
  have "\<And>m. has_number k (fst (fill_object js (fillna j m rs))) = has_number k rs"
    using Cons.IH [OF k(2)] has_number_fillna_other [OF k(1)] by simp
  then show ?case
    using Cons.IH [OF k(2)] by (simp split: list.splits)
qed

lemma fill_object_settles:
  assumes "\<forall>r\<in>set rs. length r = n" and "\<forall>j\<in>set js. j < n"
    and "snd (fill_object js rs) = None" and "k \<in> set js"
  shows "no_missing k (fst (fill_object js rs))"
  using assms
proof (induction js arbitrary: rs)
  case Nil
  then show ?case by simp
next
  case (Cons j js)
  show ?case
  proof (cases "isnull_sum j rs > 0")
    case False
    then have nm: "no_missing j rs"
      by (simp add: isnull_sum_0)
    have eq: "fill_object (j # js) rs = fill_object js rs"
      using False by simp
    show ?thesis
    proof (cases "k = j")
      case True
      then show ?thesis
        unfolding eq using nm by (simp add: no_missing_fill_object)
    next
      case False
      then show ?thesis
        unfolding eq using Cons.IH [OF Cons.prems(1)] Cons.prems eq by simp
    qed
  next
    case True
    then obtain m ms where m: "mode (column_values j rs) = m # ms"
      using Cons.prems(3) by (cases "mode (column_values j rs)") simp_all
    have eq: "fill_object (j # js) rs = fill_object js (fillna j m rs)"
      using True m by simp
    have "m \<noteq> NA"
      using mode_not_NA [of m "column_values j rs"] m by simp
    moreover have "\<forall>r\<in>set rs. j < length r"
      using Cons.prems by simp
    ultimately have nm: "no_missing j (fillna j m rs)"
      by (rule no_missing_fillna_same)
    have len: "\<forall>r\<in>set (fillna j m rs). length r = n"
      by (rule row_lengths_fillna [OF Cons.prems(1)])
    show ?thesis
    proof (cases "k = j")
      case True
      then show ?thesis
        unfolding eq using nm by (simp add: no_missing_fill_object)
    next
      case False
      then show ?thesis
        unfolding eq using Cons.IH [OF len] Cons.prems eq by simp
    qed
  qed
qed

text \<open>A loop over settled columns changes nothing.\<close>

lemma fill_numeric_settled:
  "\<forall>k\<in>set js. no_missing k rs \<or> \<not> has_number k rs \<Longrightarrow> fill_numeric js rs = rs"
proof (induction js)
  case Nil
  then show ?case by simp
next
  case (Cons j js)
  have "fillna j (median (column_values j rs)) rs = rs"
  proof (cases "no_missing j rs")
    case True
    then show ?thesis by (rule fillna_id)
  next
    case False
    then have "median (column_values j rs) = NA"
      using Cons.prems by (simp add: median_NA has_number_def)
    then show ?thesis by (simp add: fillna_NA)
  qed
  then show ?case
    unfolding fill_numeric_step using Cons by simp
qed

lemma isnull_sum_pos: "0 < isnull_sum j rs \<longleftrightarrow> \<not> no_missing j rs"
  using isnull_sum_0 [of j rs] by auto

lemma fill_object_settled:
  "\<forall>k\<in>set js. no_missing k rs \<Longrightarrow> fill_object js rs = (rs, None)"
  by (induction js) (simp_all add: isnull_sum_pos)

subsection \<open>Tables that cleaning has settled\<close>

lemma select_dtypes_bound: "j \<in> set (select_dtypes d t) \<Longrightarrow> j < length (columns t)"
  by (simp add: select_dtypes_def)

lemma select_dtypes_rows: "select_dtypes d (t\<lparr>rows := rs\<rparr>) = select_dtypes d t"
  by (simp add: select_dtypes_def)

lemma numeric_not_object:
  "j \<in> set (select_dtypes Numeric t) \<Longrightarrow> j \<notin> set (select_dtypes Object t)"
  by (auto simp: select_dtypes_def)

lemma well_formed_rows: "well_formed t \<longleftrightarrow> (\<forall>r\<in>set (rows t). length r = length (columns t))"
  by (simp add: well_formed_def list_all_iff)

lemma missing_sum_zero:
  assumes "sum_list (map snd (missing_values t rs)) = 0" and "j < length (columns t)"
  shows "no_missing j rs"
proof -
  have "\<forall>n\<in>set (map snd (missing_values t rs)). n = 0"
    using assms(1) by simp
  moreover have "isnull_sum j rs \<in> set (map snd (missing_values t rs))"
    using assms(2) by (force simp: missing_values_def comp_def)
  ultimately have "isnull_sum j rs = 0"
    by blast
  then show ?thesis
    by (simp only: isnull_sum_0)
qed

lemma no_missing_set: "set rs' = set rs \<Longrightarrow> no_missing k rs' = no_missing k rs"
  by (simp add: no_missing_def list_all_iff)

lemma present_nums_Nil_iff: "present_nums cs = [] \<longleftrightarrow> (\<forall>c\<in>set cs. \<forall>q. c \<noteq> Num q)"
  by (induction cs rule: present_nums.induct) auto

lemma has_number_set: "set rs' = set rs \<Longrightarrow> has_number k rs' = has_number k rs"
  by (simp add: has_number_def present_nums_Nil_iff column_values_def)

lemma drop_seen_distinct:
  "distinct xs \<Longrightarrow> set xs \<inter> set seen = {} \<Longrightarrow> drop_seen seen xs = xs"
  by (induction xs arbitrary: seen) auto

lemma drop_duplicates_distinct: "distinct xs \<Longrightarrow> drop_duplicates xs = xs"
  by (simp add: drop_duplicates_def drop_seen_distinct)

lemma drop_duplicates_idem: "drop_duplicates (drop_duplicates xs) = drop_duplicates xs"
  by (rule drop_duplicates_distinct) (rule distinct_drop_duplicates)

lemma clean_data_no_gaps:
  assumes "\<not> 0 < sum_list (map snd (missing_values t (drop_duplicates (rows t))))"
  shows "df (clean_data (Some t)) = Some (t\<lparr>rows := drop_duplicates (rows t)\<rparr>)"
    and "raised (clean_data (Some t)) = None"
  unfolding clean_data_def Let_def option.case if_not_P [OF assms] by simp_all

lemma clean_data_gaps:
  assumes "0 < sum_list (map snd (missing_values t (drop_duplicates (rows t))))"
  shows "df (clean_data (Some t))
           = Some (t\<lparr>rows := fst (fill_object (select_dtypes Object t)
                     (fill_numeric (select_dtypes Numeric t) (drop_duplicates (rows t))))\<rparr>)"
    and "raised (clean_data (Some t))
           = snd (fill_object (select_dtypes Object t)
                     (fill_numeric (select_dtypes Numeric t) (drop_duplicates (rows t))))"
  unfolding clean_data_def Let_def option.case if_P [OF assms]
  by (simp_all split: prod.splits)

lemma settled_after_cleaning:
  assumes wf: "well_formed t"
    and ok: "raised (clean_data (Some t)) = None"
    and t': "df (clean_data (Some t)) = Some t'"
  shows "settled t'"
proof (cases "0 < sum_list (map snd (missing_values t (drop_duplicates (rows t))))")
  case False
  have t'_eq: "t' = t\<lparr>rows := drop_duplicates (rows t)\<rparr>"
    using clean_data_no_gaps(1) [OF False] t' by simp
  have zero: "sum_list (map snd (missing_values t (drop_duplicates (rows t)))) = 0"
    using False by (simp only: not_gr_zero)
  have "\<And>d k. k \<in> set (select_dtypes d t) \<Longrightarrow> no_missing k (drop_duplicates (rows t))"
    by (rule missing_sum_zero [OF zero]) (rule select_dtypes_bound)
  then show ?thesis
    by (simp add: settled_def t'_eq select_dtypes_rows list_all_iff)
next
  case True
  let ?n = "length (columns t)"
  let ?dd = "drop_duplicates (rows t)"
  let ?rs1 = "fill_numeric (select_dtypes Numeric t) ?dd"
  let ?rs2 = "fst (fill_object (select_dtypes Object t) ?rs1)"
  have t'_eq: "t' = t\<lparr>rows := ?rs2\<rparr>"
    using clean_data_gaps(1) [OF True] t' by simp
  have ok': "snd (fill_object (select_dtypes Object t) ?rs1) = None"
    using clean_data_gaps(2) [OF True] ok by simp
  have len0: "\<forall>r\<in>set ?dd. length r = ?n"
    using wf by (simp add: well_formed_rows set_drop_duplicates)
  have len1: "\<forall>r\<in>set ?rs1. length r = ?n"
    by (rule row_lengths_fill_numeric [OF len0])
  have num: "no_missing k ?rs2 \<or> \<not> has_number k ?rs2"
    if k: "k \<in> set (select_dtypes Numeric t)" for k
  proof -
    have "\<forall>j\<in>set (select_dtypes Numeric t). j < ?n"
      by (simp add: select_dtypes_bound)
    then have "no_missing k ?rs1 \<or> \<not> has_number k ?rs1"
      using fill_numeric_settles [OF len0 _ k] by blast
    then show ?thesis
      using no_missing_fill_object [of k ?rs1 "select_dtypes Object t"]
        has_number_fill_object [OF numeric_not_object [OF k], of ?rs1]
      by blast
  qed
  have obj: "no_missing k ?rs2" if k: "k \<in> set (select_dtypes Object t)" for k
  proof -
    have "\<forall>j\<in>set (select_dtypes Object t). j < ?n"
      by (simp add: select_dtypes_bound)
    then show ?thesis
      using fill_object_settles [OF len1 _ ok' k] by blast
  qed
  show ?thesis
    using num obj by (simp add: settled_def t'_eq select_dtypes_rows list_all_iff)
qed

lemma cleaning_settled:
  assumes "settled t"
  shows "df (clean_data (Some t)) = Some (t\<lparr>rows := drop_duplicates (rows t)\<rparr>)"
    and "raised (clean_data (Some t)) = None"
proof -
  let ?dd = "drop_duplicates (rows t)"
  have s: "set ?dd = set (rows t)"
    by (rule set_drop_duplicates)
  have num: "\<forall>k\<in>set (select_dtypes Numeric t). no_missing k ?dd \<or> \<not> has_number k ?dd"
    using assms by (simp add: settled_def list_all_iff no_missing_set [OF s] has_number_set [OF s])
  have obj: "\<forall>k\<in>set (select_dtypes Object t). no_missing k ?dd"
    using assms by (simp add: settled_def list_all_iff no_missing_set [OF s])
  have n: "fill_numeric (select_dtypes Numeric t) ?dd = ?dd"
    by (rule fill_numeric_settled [OF num])
  have f: "fill_object (select_dtypes Object t) (fill_numeric (select_dtypes Numeric t) ?dd)
             = (?dd, None)"
    unfolding n by (rule fill_object_settled [OF obj])
  show "df (clean_data (Some t)) = Some (t\<lparr>rows := ?dd\<rparr>)"
  proof (cases "0 < sum_list (map snd (missing_values t ?dd))")
    case True
    show ?thesis
      unfolding clean_data_gaps(1) [OF True] f by simp
  next
    case False
    show ?thesis
      by (rule clean_data_no_gaps(1) [OF False])
  qed
  show "raised (clean_data (Some t)) = None"
  proof (cases "0 < sum_list (map snd (missing_values t ?dd))")
    case True
    show ?thesis
      unfolding clean_data_gaps(2) [OF True] f by simp
  next
    case False
    show ?thesis
      by (rule clean_data_no_gaps(2) [OF False])
  qed
qed

lemma settled_drop_duplicates:
  assumes "settled t"
  shows "settled (t\<lparr>rows := drop_duplicates (rows t)\<rparr>)"
proof -
  have s: "set (drop_duplicates (rows t)) = set (rows t)"
    by (rule set_drop_duplicates)
  show ?thesis
    using assms
    by (simp add: settled_def select_dtypes_rows no_missing_set [OF s] has_number_set [OF s])
qed

subsection \<open>The two cleaning functions compared\<close>












text \<open>The guard on the total number of missing cells does not change the result.\<close>

lemma clean_data_loops:
  "df (clean_data (Some t))
     = Some (t\<lparr>rows := fst (fill_object (select_dtypes Object t)
               (fill_numeric (select_dtypes Numeric t) (drop_duplicates (rows t))))\<rparr>)"
  "raised (clean_data (Some t))
     = snd (fill_object (select_dtypes Object t)
              (fill_numeric (select_dtypes Numeric t) (drop_duplicates (rows t))))"
proof -
  let ?dd = "drop_duplicates (rows t)"
  let ?loops = "fill_object (select_dtypes Object t) (fill_numeric (select_dtypes Numeric t) ?dd)"
  have "df (clean_data (Some t)) = Some (t\<lparr>rows := fst ?loops\<rparr>)
        \<and> raised (clean_data (Some t)) = snd ?loops"
  proof (cases "0 < sum_list (map snd (missing_values t ?dd))")
    case True
    then show ?thesis
      by (simp only: clean_data_gaps)
  next
    case False
    then have zero: "sum_list (map snd (missing_values t ?dd)) = 0"
      by (simp only: not_gr_zero)
    have nm: "\<And>d k. k \<in> set (select_dtypes d t) \<Longrightarrow> no_missing k ?dd"
      by (rule missing_sum_zero [OF zero]) (rule select_dtypes_bound)
    have "fill_numeric (select_dtypes Numeric t) ?dd = ?dd"
      by (rule fill_numeric_settled) (simp add: nm)
    moreover have "fill_object (select_dtypes Object t) ?dd = (?dd, None)"
      by (rule fill_object_settled) (simp add: nm)
    ultimately show ?thesis
      by (simp add: clean_data_no_gaps [OF False])
  qed
  then show "df (clean_data (Some t)) = Some (t\<lparr>rows := fst ?loops\<rparr>)"
    and "raised (clean_data (Some t)) = snd ?loops"
    by simp_all
qed

lemma fill_numeric_all_eq: "fill_numeric_all js rs = fill_numeric js rs"
  by (induction js arbitrary: rs) (simp_all only: fill_numeric_all.simps fill_numeric_step fill_numeric.simps(1))

lemma length_fill_numeric: "length (fill_numeric js rs) = length rs"
  by (rule keeps_present_length [OF keeps_present_fill_numeric])

lemma fill_object_all_eq: "rs \<noteq> [] \<Longrightarrow> fill_object_all js rs = fill_object js rs"
proof (induction js arbitrary: rs)
  case Nil
  then show ?case by simp
next
  case (Cons j js)
  have step: "\<And>m. fill_object_all js (fillna j m rs) = fill_object js (fillna j m rs)"
    by (rule Cons.IH) (simp add: fillna_def Cons.prems)
  show ?case
  proof (cases "0 < isnull_sum j rs")
    case True
    then show ?thesis
      by (simp add: step split: list.splits)
  next
    case False
    then have nm: "no_missing j rs"
      by (simp add: isnull_sum_pos)
    then have "\<not> (\<forall>c\<in>set (column_values j rs). c = NA)"
      using Cons.prems by (cases rs) (auto simp: no_missing_def column_values_def)
    then obtain m ms where m: "mode (column_values j rs) = m # ms"
      by (cases "mode (column_values j rs)") (simp_all add: mode_Nil_iff)
    show ?thesis
      using False m Cons.IH [OF Cons.prems] by (simp add: fillna_id [OF nm])
  qed
qed

lemma data_cleaner_as_clean_data:
  assumes "rows t \<noteq> []"
  shows "df (data_cleaner_clean_data (Some t)) = df (clean_data (Some t))"
    and "raised (data_cleaner_clean_data (Some t)) = raised (clean_data (Some t))"
    and "printed (data_cleaner_clean_data (Some t))
           = (if raised (clean_data (Some t)) = None then [DataCleanedSuccessfully] else [])"
proof -
  have "drop_duplicates (rows t) \<noteq> []"
    using assms set_drop_duplicates [of "rows t"] by (metis set_empty)
  then have ne: "fill_numeric (select_dtypes Numeric t) (drop_duplicates (rows t)) \<noteq> []"
    using length_fill_numeric [of "select_dtypes Numeric t" "drop_duplicates (rows t)"]
    by (metis length_0_conv)
  note eq = fill_numeric_all_eq fill_object_all_eq [OF ne]
  show "df (data_cleaner_clean_data (Some t)) = df (clean_data (Some t))"
    unfolding clean_data_loops
    by (simp add: data_cleaner_clean_data_def Let_def eq split: prod.splits)
  show "raised (data_cleaner_clean_data (Some t)) = raised (clean_data (Some t))"
    unfolding clean_data_loops
    by (simp add: data_cleaner_clean_data_def Let_def eq split: prod.splits)
  show "printed (data_cleaner_clean_data (Some t))
           = (if raised (clean_data (Some t)) = None then [DataCleanedSuccessfully] else [])"
    unfolding clean_data_loops
    by (simp add: data_cleaner_clean_data_def Let_def eq split: prod.splits)
qed

lemma fill_numeric_Nil: "fill_numeric js [] = []"
  using length_fill_numeric [of js "[]"] by simp

lemma fill_object_all_Nil:
  "fill_object_all js [] = ([], if js = [] then None else Some (KeyError (Position 0)))"
  by (cases js) (simp_all add: mode_def column_values_def)

lemma data_cleaner_no_rows:
  assumes "rows t = []"
  shows "df (data_cleaner_clean_data (Some t)) = Some t"
    and "raised (data_cleaner_clean_data (Some t))
           = (if select_dtypes Object t = [] then None else Some (KeyError (Position 0)))"
  using assms
  by (simp_all add: data_cleaner_clean_data_def Let_def drop_duplicates_def
        fill_numeric_all_eq fill_numeric_Nil fill_object_all_Nil)




subsection \<open>A second cleaning\<close>

lemma unchanged_iff_distinct:
  "Some (t\<lparr>rows := drop_duplicates (rows t)\<rparr>) = Some t \<longleftrightarrow> distinct (rows t)"
proof
  assume "Some (t\<lparr>rows := drop_duplicates (rows t)\<rparr>) = Some t"
  then have "rows (t\<lparr>rows := drop_duplicates (rows t)\<rparr>) = rows t"
    by simp
  then have "drop_duplicates (rows t) = rows t"
    by simp
  then show "distinct (rows t)"
    using distinct_drop_duplicates [of "rows t"] by simp
next
  assume "distinct (rows t)"
  then show "Some (t\<lparr>rows := drop_duplicates (rows t)\<rparr>) = Some t"
    by (simp add: drop_duplicates_distinct)
qed

lemma second_clean_data:
  assumes "well_formed t"
    and "raised (clean_data (Some t)) = None"
    and "df (clean_data (Some t)) = Some t'"
  shows "df (clean_data (Some t')) = Some (t'\<lparr>rows := drop_duplicates (rows t')\<rparr>)"
    and "raised (clean_data (Some t')) = None"
    and "df (clean_data (df (clean_data (Some t')))) = df (clean_data (Some t'))"
proof -
  have s: "settled t'"
    by (rule settled_after_cleaning [OF assms])
  show second: "df (clean_data (Some t')) = Some (t'\<lparr>rows := drop_duplicates (rows t')\<rparr>)"
    by (rule cleaning_settled(1) [OF s])
  show "raised (clean_data (Some t')) = None"
    by (rule cleaning_settled(2) [OF s])
  have "df (clean_data (Some (t'\<lparr>rows := drop_duplicates (rows t')\<rparr>)))
          = Some (t'\<lparr>rows := drop_duplicates (rows t')\<rparr>)"
    using cleaning_settled(1) [OF settled_drop_duplicates [OF s]]
    by (simp add: drop_duplicates_idem)
  then show "df (clean_data (df (clean_data (Some t')))) = df (clean_data (Some t'))"
    by (simp only: second)
qed

lemma second_data_cleaner:
  assumes wf: "well_formed t"
    and ok: "raised (data_cleaner_clean_data (Some t)) = None"
    and t': "df (data_cleaner_clean_data (Some t)) = Some t'"
  shows "df (data_cleaner_clean_data (Some t'))
           = Some (t'\<lparr>rows := drop_duplicates (rows t')\<rparr>)"
    and "raised (data_cleaner_clean_data (Some t')) = None"
proof -
  have "df (data_cleaner_clean_data (Some t'))
           = Some (t'\<lparr>rows := drop_duplicates (rows t')\<rparr>)
        \<and> raised (data_cleaner_clean_data (Some t')) = None"
  proof (cases "rows t = []")
    case True
    have "t' = t"
      using data_cleaner_no_rows(1) [OF True] t' by simp
    moreover have "select_dtypes Object t = []"
      using data_cleaner_no_rows(2) [OF True] ok by (simp split: if_splits)
    ultimately show ?thesis
      using data_cleaner_no_rows [of t] True by (simp add: drop_duplicates_def)
  next
    case False
    have ok': "raised (clean_data (Some t)) = None"
      and c: "df (clean_data (Some t)) = Some t'"
      using data_cleaner_as_clean_data [OF False] ok t' by simp_all
    obtain rs where rs: "df (clean_data (Some t)) = Some (t\<lparr>rows := rs\<rparr>)"
      "keeps_present (drop_duplicates (rows t)) rs"
      using clean_data_rows by blast
    have "drop_duplicates (rows t) \<noteq> []"
      using False set_drop_duplicates [of "rows t"] by (metis set_empty)
    then have "rs \<noteq> []"
      using keeps_present_length [OF rs(2)] by (metis length_0_conv)
    then have ne: "rows t' \<noteq> []"
      using rs(1) c by auto
    show ?thesis
      using data_cleaner_as_clean_data [OF ne] second_clean_data [OF wf ok' c] by simp
  qed
  then show "df (data_cleaner_clean_data (Some t'))
           = Some (t'\<lparr>rows := drop_duplicates (rows t')\<rparr>)"
    and "raised (data_cleaner_clean_data (Some t')) = None"
    by simp_all
qed

text \<open>
  Claim C8, as the code has it.  On a table whose rows have one cell per column and on
  which cleaning returns, a second cleaning imputes nothing and changes no cell: its
  result is the once-cleaned table without the rows that are exact duplicates of an
  earlier row (imputation can make rows equal that differed in a missing cell only).
  So the second cleaning returns the identical table exactly when the once-cleaned
  table has no duplicate rows, and a third cleaning returns what the second did.  This
  holds for \<open>SalesAnalyzer.clean_data\<close> and for \<open>data_cleaner.clean_data\<close>.
\<close>

theorem second_cleaning_only_deduplicates:
  assumes "well_formed t"
  shows "(raised (clean_data (Some t)) = None \<and> df (clean_data (Some t)) = Some t'
          \<longrightarrow> df (clean_data (Some t')) = Some (t'\<lparr>rows := drop_duplicates (rows t')\<rparr>)
            \<and> raised (clean_data (Some t')) = None
            \<and> (df (clean_data (Some t')) = Some t' \<longleftrightarrow> distinct (rows t'))
            \<and> df (clean_data (df (clean_data (Some t')))) = df (clean_data (Some t')))
       \<and> (raised (data_cleaner_clean_data (Some t)) = None
            \<and> df (data_cleaner_clean_data (Some t)) = Some t'
          \<longrightarrow> df (data_cleaner_clean_data (Some t'))
                = Some (t'\<lparr>rows := drop_duplicates (rows t')\<rparr>)
            \<and> raised (data_cleaner_clean_data (Some t')) = None
            \<and> (df (data_cleaner_clean_data (Some t')) = Some t' \<longleftrightarrow> distinct (rows t')))"
proof (intro conjI impI)
  assume a: "raised (clean_data (Some t)) = None \<and> df (clean_data (Some t)) = Some t'"
  note r = second_clean_data [OF assms conjunct1 [OF a] conjunct2 [OF a]]
  show "df (clean_data (Some t')) = Some (t'\<lparr>rows := drop_duplicates (rows t')\<rparr>)"
    by (rule r(1))
  show "raised (clean_data (Some t')) = None"
    by (rule r(2))
  show "df (clean_data (df (clean_data (Some t')))) = df (clean_data (Some t'))"
    by (rule r(3))
  show "df (clean_data (Some t')) = Some t' \<longleftrightarrow> distinct (rows t')"
    unfolding r(1) by (rule unchanged_iff_distinct)
next
  assume a: "raised (data_cleaner_clean_data (Some t)) = None
            \<and> df (data_cleaner_clean_data (Some t)) = Some t'"
  note r = second_data_cleaner [OF assms conjunct1 [OF a] conjunct2 [OF a]]
  show "df (data_cleaner_clean_data (Some t'))
          = Some (t'\<lparr>rows := drop_duplicates (rows t')\<rparr>)"
    by (rule r(1))
  show "raised (data_cleaner_clean_data (Some t')) = None"
    by (rule r(2))
  show "df (data_cleaner_clean_data (Some t')) = Some t' \<longleftrightarrow> distinct (rows t')"
    unfolding r(1) by (rule unchanged_iff_distinct)
qed

lemma orders_with_gaps_clean:
  "well_formed orders_with_gaps
   \<and> raised (clean_data (Some orders_with_gaps)) = None
   \<and> df (clean_data (Some orders_with_gaps)) = Some orders_with_gaps_cleaned
   \<and> raised (data_cleaner_clean_data (Some orders_with_gaps)) = None
   \<and> df (data_cleaner_clean_data (Some orders_with_gaps)) = Some orders_with_gaps_cleaned
   \<and> distinct (rows orders_with_gaps_cleaned)"
  by code_simp

theorem second_cleaning_only_deduplicates_witness:
  "well_formed orders_with_gaps
   \<and> raised (clean_data (Some orders_with_gaps)) = None
   \<and> df (clean_data (Some orders_with_gaps)) = Some orders_with_gaps_cleaned
   \<and> raised (data_cleaner_clean_data (Some orders_with_gaps)) = None
   \<and> df (data_cleaner_clean_data (Some orders_with_gaps)) = Some orders_with_gaps_cleaned
   \<and> distinct (rows orders_with_gaps_cleaned)
   \<and> df (clean_data (Some orders_with_gaps_cleaned)) = Some orders_with_gaps_cleaned
   \<and> raised (clean_data (Some orders_with_gaps_cleaned)) = None
   \<and> df (data_cleaner_clean_data (Some orders_with_gaps_cleaned))
       = Some orders_with_gaps_cleaned
   \<and> raised (data_cleaner_clean_data (Some orders_with_gaps_cleaned)) = None"
proof -
  have wf: "well_formed orders_with_gaps"
    using orders_with_gaps_clean by simp
  show ?thesis
    using second_cleaning_only_deduplicates [OF wf, of orders_with_gaps_cleaned]
      orders_with_gaps_clean
    by blast
qed

text \<open>
  Claim C8 as stated fails: in \<open>order_recorded_twice\<close> the first two rows differ only
  in a missing quantity.  The first cleaning fills it with the median 2, which makes
  the rows equal; the second cleaning removes one of them.
\<close>

theorem cleaning_twice_removes_a_row:
  "map_option rows (df (clean_data (Some order_recorded_twice)))
     = Some [[Num 1, Num 7, Num 3, Str ''toys'', Num 2, Num 10, Ts 2024 1 5 0],
             [Num 1, Num 7, Num 3, Str ''toys'', Num 2, Num 10, Ts 2024 1 5 0],
             [Num 2, Num 8, Num 4, Str ''books'', Num 2, Num 25, Ts 2024 1 9 0]]
   \<and> map_option rows (df (clean_data (df (clean_data (Some order_recorded_twice)))))
     = Some [[Num 1, Num 7, Num 3, Str ''toys'', Num 2, Num 10, Ts 2024 1 5 0],
             [Num 2, Num 8, Num 4, Str ''books'', Num 2, Num 25, Ts 2024 1 9 0]]
   \<and> printed (clean_data (df (clean_data (Some order_recorded_twice))))
     = [RemovedDuplicates 1]
   \<and> map_option rows
        (df (data_cleaner_clean_data (df (data_cleaner_clean_data (Some order_recorded_twice)))))
     = Some [[Num 1, Num 7, Num 3, Str ''toys'', Num 2, Num 10, Ts 2024 1 5 0],
             [Num 2, Num 8, Num 4, Str ''books'', Num 2, Num 25, Ts 2024 1 9 0]]"
  by code_simp

subsection \<open>A numeric column without values\<close>






end
